theory Spec2Isabelle
  imports Main
begin

section \<open>Data model of \<^verbatim>\<open>manager/cmd/server.go\<close>\<close>

text \<open>
  Go's \<^verbatim>\<open>int\<close> is modelled as \<open>int\<close>: no arithmetic of the decision and session code
  can overflow (it only compares confidences and identifiers).  A \<^verbatim>\<open>time.Time\<close> is an
  instant on a discrete time line and a \<^verbatim>\<open>time.Duration\<close> a difference of two instants,
  both \<open>int\<close>; \<^verbatim>\<open>*time.Time\<close> (a nullable column) is \<open>time option\<close>.
\<close>

type_synonym time = int
type_synonym duration = int

record PresenceSession =
  SessionID :: int
  UserID :: int
  RoomID :: int
  StartTime :: time
  EndTime :: "time option"
  LastSeen :: time

text \<open>
  \<^verbatim>\<open>BeaconSignal\<close> and \<^verbatim>\<open>WiFiSignal\<close>.  The field \<^verbatim>\<open>RSSI\<close> (a \<^verbatim>\<open>float64\<close>) is only ever
  written to the log, so the model keeps the strength as an \<open>int\<close>.  Both structs have a
  field \<^verbatim>\<open>BSSID\<close>; the beacon's one is named \<open>BeaconBSSID\<close> here.
\<close>

record BeaconSignal =
  UUID :: string
  BeaconBSSID :: string
  BeaconRSSI :: int

record WiFiSignal =
  SSID :: string
  BSSID :: string
  RSSI :: int

subsection \<open>The database\<close>

text \<open>
  The handle \<^verbatim>\<open>db *sql.DB\<close> gives access to three tables: \<^verbatim>\<open>user_presence_sessions\<close>
  (rows in insertion order, \<^verbatim>\<open>session_id\<close> generated from a sequence), \<^verbatim>\<open>beacons\<close>
  (\<^verbatim>\<open>service_uuid\<close>, \<^verbatim>\<open>room_id\<close>) and \<^verbatim>\<open>wifi_access_points\<close> (\<^verbatim>\<open>bssid\<close>, \<^verbatim>\<open>room_id\<close>).
  Every statement the code sends can come back with an error; \<open>failing\<close> is the set of
  statements that do so while the call under consideration runs.
\<close>

datatype stmt =
  SelectBeacon | SelectWifi | SelectOpenSession | InsertSession
  | UpdateEndTime | UpdateLastSeen | SelectStale

record db =
  sessions :: "PresenceSession list"
  session_seq :: int
  beacons :: "(string \<times> int) list"
  wifi_access_points :: "(string \<times> int) list"
  failing :: "stmt set"

text \<open>
  The errors of the code are \<^verbatim>\<open>fmt.Errorf\<close> values told apart by their message;
  the model names them.  \<open>ErrNoRows\<close> is \<^verbatim>\<open>sql.ErrNoRows\<close>, \<open>ErrDb\<close> any other error of
  a statement, \<open>ErrNoSignalData\<close> and \<open>ErrNoMatch\<close> the two errors of
  \<^verbatim>\<open>determineRoomID\<close>, \<open>ErrCsv\<close> a failure of the CSV readers and \<open>ErrFetch\<close> a failure
  of a call to the estimation or inquiry server.
\<close>

datatype error =
  ErrNoRows | ErrDb stmt | ErrNoSignalData | ErrNoMatch | ErrCsv | ErrFetch

subsection \<open>SQL \<^verbatim>\<open>UPPER\<close> and \<^verbatim>\<open>LOWER\<close>\<close>

definition upper_char :: "char \<Rightarrow> char" where
  "upper_char c =
     (case map_of (zip ''abcdefghijklmnopqrstuvwxyz'' ''ABCDEFGHIJKLMNOPQRSTUVWXYZ'') c of
        None \<Rightarrow> c | Some C \<Rightarrow> C)"

definition lower_char :: "char \<Rightarrow> char" where
  "lower_char c =
     (case map_of (zip ''ABCDEFGHIJKLMNOPQRSTUVWXYZ'' ''abcdefghijklmnopqrstuvwxyz'') c of
        None \<Rightarrow> c | Some C \<Rightarrow> C)"

definition UPPER :: "string \<Rightarrow> string" where
  "UPPER s = map upper_char s"

definition LOWER :: "string \<Rightarrow> string" where
  "LOWER s = map lower_char s"

section \<open>Room resolution\<close>

text \<open>
  \<^verbatim>\<open>getRoomIDByBeacon\<close>: \<^verbatim>\<open>SELECT room_id FROM beacons WHERE UPPER(service_uuid) = UPPER($1)
  LIMIT 1\<close>, scanned into an \<^verbatim>\<open>int\<close>.  Without a row the scan returns \<^verbatim>\<open>sql.ErrNoRows\<close>.
\<close>

definition getRoomIDByBeacon :: "db \<Rightarrow> BeaconSignal \<Rightarrow> error + int" where
  "getRoomIDByBeacon d beacon =
     (if SelectBeacon \<in> failing d then Inl (ErrDb SelectBeacon)
      else case find (\<lambda>row. UPPER (fst row) = UPPER (UUID beacon)) (beacons d) of
             None \<Rightarrow> Inl ErrNoRows
           | Some row \<Rightarrow> Inr (snd row))"

text \<open>
  \<^verbatim>\<open>getRoomIDByWifi\<close>: \<^verbatim>\<open>SELECT room_id FROM wifi_access_points WHERE LOWER(bssid) = LOWER($1)
  LIMIT 1\<close>.
\<close>

definition getRoomIDByWifi :: "db \<Rightarrow> WiFiSignal \<Rightarrow> error + int" where
  "getRoomIDByWifi d wifi =
     (if SelectWifi \<in> failing d then Inl (ErrDb SelectWifi)
      else case find (\<lambda>row. LOWER (fst row) = LOWER (BSSID wifi)) (wifi_access_points d) of
             None \<Rightarrow> Inl ErrNoRows
           | Some row \<Rightarrow> Inr (snd row))"

text \<open>
  The two loops of \<^verbatim>\<open>determineRoomID\<close>.  \<^verbatim>\<open>var bleRoomID int\<close> starts as 0; a lookup that
  returns an error is skipped (\<^verbatim>\<open>continue\<close>), the first lookup that returns without an
  error assigns the variable and leaves the loop (\<^verbatim>\<open>break\<close>).
\<close>

fun scanBeacons :: "db \<Rightarrow> BeaconSignal list \<Rightarrow> int" where
  "scanBeacons d [] = 0"
| "scanBeacons d (beacon # rest) =
     (case getRoomIDByBeacon d beacon of
        Inl err \<Rightarrow> scanBeacons d rest
      | Inr roomID \<Rightarrow> roomID)"

fun scanWifi :: "db \<Rightarrow> WiFiSignal list \<Rightarrow> int" where
  "scanWifi d [] = 0"
| "scanWifi d (wifi # rest) =
     (case getRoomIDByWifi d wifi of
        Inl err \<Rightarrow> scanWifi d rest
      | Inr roomID \<Rightarrow> roomID)"

text \<open>
  \<^verbatim>\<open>determineRoomID\<close>.  Its first two steps read the uploaded CSV files with
  \<^verbatim>\<open>parseBLECSV\<close> and \<^verbatim>\<open>parseWifiCSV\<close>; the results of the two readers are the arguments
  \<open>bleCsv\<close> and \<open>wifiCsv\<close> here.
\<close>

definition determineRoomID ::
  "db \<Rightarrow> error + BeaconSignal list \<Rightarrow> error + WiFiSignal list \<Rightarrow> error + int" where
  "determineRoomID d bleCsv wifiCsv =
     (case bleCsv of
        Inl err \<Rightarrow> Inl err
      | Inr bleSignals \<Rightarrow>
          (case wifiCsv of
             Inl err \<Rightarrow> Inl err
           | Inr wifiSignals \<Rightarrow>
               if length bleSignals = 0 \<and> length wifiSignals = 0 then Inl ErrNoSignalData
               else
                 let bleRoomID = scanBeacons d bleSignals;
                     wifiRoomID = scanWifi d wifiSignals
                 in if bleRoomID \<noteq> 0 then Inr bleRoomID
                    else if wifiRoomID \<noteq> 0 then Inr wifiRoomID
                    else Inl ErrNoMatch))"

section \<open>Session operations\<close>

text \<open>
  \<^verbatim>\<open>startUserSession\<close>: an unconditional \<^verbatim>\<open>INSERT\<close> of a row with
  \<^verbatim>\<open>start_time = last_seen = $3\<close> and no \<^verbatim>\<open>end_time\<close>.
\<close>

definition startUserSession :: "db \<Rightarrow> int \<Rightarrow> int \<Rightarrow> time \<Rightarrow> error + db" where
  "startUserSession d userID roomID startTime =
     (if InsertSession \<in> failing d then Inl (ErrDb InsertSession)
      else Inr (d\<lparr>sessions := sessions d @
                    [\<lparr>SessionID = session_seq d, UserID = userID, RoomID = roomID,
                      StartTime = startTime, EndTime = None, LastSeen = startTime\<rparr>],
                 session_seq := session_seq d + 1\<rparr>))"

text \<open>
  \<^verbatim>\<open>endUserSession\<close>: \<^verbatim>\<open>UPDATE ... SET end_time = $1 WHERE user_id = $2 AND end_time IS NULL\<close>.
  The number of rows affected only decides whether a line is logged.
\<close>

definition endUserSession :: "db \<Rightarrow> int \<Rightarrow> time \<Rightarrow> error + db" where
  "endUserSession d userID endTime =
     (if UpdateEndTime \<in> failing d then Inl (ErrDb UpdateEndTime)
      else Inr (d\<lparr>sessions :=
                    map (\<lambda>s. if UserID s = userID \<and> EndTime s = None
                              then s\<lparr>EndTime := Some endTime\<rparr> else s)
                        (sessions d)\<rparr>))"

text \<open>
  \<^verbatim>\<open>updateLastSeen\<close>: \<^verbatim>\<open>UPDATE ... SET last_seen = $1 WHERE user_id = $2 AND end_time IS NULL\<close>.
\<close>

definition updateLastSeen :: "db \<Rightarrow> int \<Rightarrow> time \<Rightarrow> error + db" where
  "updateLastSeen d userID lastSeen =
     (if UpdateLastSeen \<in> failing d then Inl (ErrDb UpdateLastSeen)
      else Inr (d\<lparr>sessions :=
                    map (\<lambda>s. if UserID s = userID \<and> EndTime s = None
                              then s\<lparr>LastSeen := lastSeen\<rparr> else s)
                        (sessions d)\<rparr>))"

text \<open>
  \<^verbatim>\<open>updateUserPresence\<close>.  The query for the open session is a \<^verbatim>\<open>QueryRowContext\<close>: it
  reads the first row, and \<^verbatim>\<open>sql.ErrNoRows\<close> is the only error after which a session
  is started.
\<close>

definition updateUserPresence ::
  "db \<Rightarrow> int \<Rightarrow> int \<Rightarrow> int \<Rightarrow> time \<Rightarrow> int \<Rightarrow> error + db" where
  "updateUserPresence d userID estimationConfidence inquiryConfidence lastSeen roomID =
     (if inquiryConfidence > estimationConfidence then endUserSession d userID lastSeen
      else if SelectOpenSession \<in> failing d then Inl (ErrDb SelectOpenSession)
      else case find (\<lambda>s. UserID s = userID \<and> EndTime s = None) (sessions d) of
             None \<Rightarrow> startUserSession d userID roomID lastSeen
           | Some existing \<Rightarrow> updateLastSeen d userID lastSeen)"

section \<open>The upload handler\<close>

text \<open>
  \<^verbatim>\<open>handleSignalsSubmit\<close>.  Its first part (method check, multipart parsing, user lookup,
  storing the two files and checking that they are not empty) belongs to the HTTP and
  file layer: it either answers the request itself with an error status or hands over
  the numeric user id.  An \<open>upload\<close> collects what this layer and the other collaborators
  deliver to the rest of the handler: the result of the first part, the reading
  \<^verbatim>\<open>currentTime\<close> of the clock, the answers of the estimation and inquiry servers, the
  results of the two CSV readers, and whether the directory creation, the two file copies
  of the negative sample and the encoding of the response succeed.
\<close>

record upload =
  ingest :: "nat + int"
  currentTime :: time
  estimation :: "error + int"
  inquiry :: "error + int"
  bleCsv :: "error + BeaconSignal list"
  wifiCsv :: "error + WiFiSignal list"
  mkdirOk :: bool
  copyWifiOk :: bool
  copyBleOk :: bool
  encodeOk :: bool

text \<open>
  What a run of the handler leaves behind: the answer to the uploader (\<open>Received\<close> is
  the JSON message of a successful upload, \<open>HttpError\<close> a call of \<^verbatim>\<open>http.Error\<close> with a
  status), the database, whether the inquiry server was called, and how many files
  were copied to the negative samples.  The field \<open>disposition\<close> names the branch of
  the confidence decision that ran, if the handler got that far: \<open>Present i\<close> for the two
  branches that resolve the room and call \<^verbatim>\<open>updateUserPresence\<close> with inquiry confidence
  \<open>i\<close>, \<open>AbsentWithArchive\<close> for the branch that ends the session and stores a negative
  sample, \<open>Absent\<close> for the branch that only ends the session.
\<close>

datatype response = Received | HttpError nat

datatype Disposition = Present int | Absent | AbsentWithArchive

record outcome =
  reply :: response
  store :: db
  disposition :: "Disposition option"
  inquiryFetched :: bool
  negativeCopies :: nat

text \<open>The end of the handler: the response is encoded, or the encoding fails.\<close>

definition respond :: "upload \<Rightarrow> response" where
  "respond up = (if encodeOk up then Received else HttpError 500)"

text \<open>
  The two branches that treat the user as present (confidence between 20 and 70 and
  not below the inquiry confidence, or above 70 with inquiry confidence 0) run the same
  statements: resolve the room, fail the upload when that fails, otherwise call
  \<^verbatim>\<open>updateUserPresence\<close> and only log an error of it.
\<close>

definition presentBranch :: "upload \<Rightarrow> db \<Rightarrow> int \<Rightarrow> int \<Rightarrow> int \<Rightarrow> bool \<Rightarrow> outcome" where
  "presentBranch up d userID estimationConfidence inquiryConfidence fetched =
     (case determineRoomID d (bleCsv up) (wifiCsv up) of
        Inl err \<Rightarrow>
          \<lparr>reply = HttpError 500, store = d, disposition = Some (Present inquiryConfidence),
           inquiryFetched = fetched, negativeCopies = 0\<rparr>
      | Inr roomID \<Rightarrow>
          (case updateUserPresence d userID estimationConfidence inquiryConfidence
                  (currentTime up) roomID of
             Inl err \<Rightarrow>
               \<lparr>reply = respond up, store = d, disposition = Some (Present inquiryConfidence),
                inquiryFetched = fetched, negativeCopies = 0\<rparr>
           | Inr d' \<Rightarrow>
               \<lparr>reply = respond up, store = d', disposition = Some (Present inquiryConfidence),
                inquiryFetched = fetched, negativeCopies = 0\<rparr>))"

text \<open>
  The branch for a confidence between 20 and 70 that is below the inquiry confidence:
  the session is ended (an error is only logged), then the upload is copied to the
  negative samples; each of the three file operations fails the upload.
\<close>

definition archiveBranch :: "upload \<Rightarrow> db \<Rightarrow> int \<Rightarrow> outcome" where
  "archiveBranch up d userID =
     (let d' = (case endUserSession d userID (currentTime up) of Inl err \<Rightarrow> d | Inr d1 \<Rightarrow> d1)
      in if \<not> mkdirOk up then
           \<lparr>reply = HttpError 500, store = d', disposition = Some AbsentWithArchive,
            inquiryFetched = True, negativeCopies = 0\<rparr>
         else if \<not> copyWifiOk up then
           \<lparr>reply = HttpError 500, store = d', disposition = Some AbsentWithArchive,
            inquiryFetched = True, negativeCopies = 0\<rparr>
         else if \<not> copyBleOk up then
           \<lparr>reply = HttpError 500, store = d', disposition = Some AbsentWithArchive,
            inquiryFetched = True, negativeCopies = 1\<rparr>
         else
           \<lparr>reply = respond up, store = d', disposition = Some AbsentWithArchive,
            inquiryFetched = True, negativeCopies = 2\<rparr>)"

text \<open>The branch for a confidence below 20: the session is ended, an error only logged.\<close>

definition absentBranch :: "upload \<Rightarrow> db \<Rightarrow> int \<Rightarrow> outcome" where
  "absentBranch up d userID =
     (let d' = (case endUserSession d userID (currentTime up) of Inl err \<Rightarrow> d | Inr d1 \<Rightarrow> d1)
      in \<lparr>reply = respond up, store = d', disposition = Some Absent,
          inquiryFetched = False, negativeCopies = 0\<rparr>)"

definition handleSignalsSubmit :: "upload \<Rightarrow> db \<Rightarrow> outcome" where
  "handleSignalsSubmit up d =
     (case ingest up of
        Inl status \<Rightarrow>
          \<lparr>reply = HttpError status, store = d, disposition = None,
           inquiryFetched = False, negativeCopies = 0\<rparr>
      | Inr userID \<Rightarrow>
          (case estimation up of
             Inl err \<Rightarrow>
               \<lparr>reply = HttpError 500, store = d, disposition = None,
                inquiryFetched = False, negativeCopies = 0\<rparr>
           | Inr estimationConfidence \<Rightarrow>
               if estimationConfidence \<ge> 20 \<and> estimationConfidence \<le> 70 then
                 (case inquiry up of
                    Inl err \<Rightarrow>
                      \<lparr>reply = HttpError 500, store = d, disposition = None,
                       inquiryFetched = True, negativeCopies = 0\<rparr>
                  | Inr inquiryConfidence \<Rightarrow>
                      if estimationConfidence \<ge> inquiryConfidence
                      then presentBranch up d userID estimationConfidence inquiryConfidence True
                      else archiveBranch up d userID)
               else if estimationConfidence > 70
                 then presentBranch up d userID estimationConfidence 0 False
                 else absentBranch up d userID))"

section \<open>The reaper\<close>

text \<open>
  One round of the loop of \<^verbatim>\<open>cleanUpOldSessions\<close>, which waits for the ticker and then
  runs this body, for ever.  The clock is read once for the cutoff and once for each
  user whose session is ended: \<open>clock k\<close> is the \<open>k\<close>-th reading of the round.
  \<open>staleUsers\<close> is the query with its row loop, \<open>endStale\<close> the loop over \<^verbatim>\<open>usersToEnd\<close>,
  which logs an error of \<^verbatim>\<open>endUserSession\<close> and goes on.
\<close>

definition staleUsers :: "db \<Rightarrow> time \<Rightarrow> int list" where
  "staleUsers d cutoffTime =
     map UserID (filter (\<lambda>s. EndTime s = None \<and> LastSeen s < cutoffTime) (sessions d))"

fun endStale :: "db \<Rightarrow> (nat \<Rightarrow> time) \<Rightarrow> nat \<Rightarrow> int list \<Rightarrow> db" where
  "endStale d clock k [] = d"
| "endStale d clock k (uid # rest) =
     (case endUserSession d uid (clock k) of
        Inl err \<Rightarrow> endStale d clock (Suc k) rest
      | Inr d' \<Rightarrow> endStale d' clock (Suc k) rest)"

definition cleanUpOldSessions_tick :: "db \<Rightarrow> duration \<Rightarrow> (nat \<Rightarrow> time) \<Rightarrow> db" where
  "cleanUpOldSessions_tick d inactivityThreshold clock =
     (let cutoffTime = clock 0 - inactivityThreshold
      in if SelectStale \<in> failing d then d
         else endStale d clock 1 (staleUsers d cutoffTime))"

section \<open>Notions used by the properties\<close>

subsection \<open>Open sessions\<close>

text \<open>
  A session is open when its \<^verbatim>\<open>end_time\<close> is not set.  \<open>openCount d u\<close> is the number of
  open rows of user \<open>u\<close>, and \<open>singleOpen\<close> the invariant that no user has two of them.
\<close>

definition isOpenFor :: "int \<Rightarrow> PresenceSession \<Rightarrow> bool" where
  "isOpenFor u s = (UserID s = u \<and> EndTime s = None)"

definition openCount :: "db \<Rightarrow> int \<Rightarrow> nat" where
  "openCount d u = length (filter (isOpenFor u) (sessions d))"

definition singleOpen :: "db \<Rightarrow> bool" where
  "singleOpen d = (\<forall>u. openCount d u \<le> 1)"

subsection \<open>Sequences of operations\<close>


definition orElse :: "error + db \<Rightarrow> db \<Rightarrow> db" where
  "orElse r d = (case r of Inl err \<Rightarrow> d | Inr d' \<Rightarrow> d')"



subsection \<open>Statements of overlapping calls\<close>

text \<open>
  The server handles every request in a task of its own, and \<^verbatim>\<open>updateUserPresence\<close>
  issues its statements one by one on the shared connection pool, outside a
  transaction: first the \<^verbatim>\<open>SELECT\<close> of the open session, then the \<^verbatim>\<open>INSERT\<close> of
  \<^verbatim>\<open>startUserSession\<close> or the \<^verbatim>\<open>UPDATE\<close> of \<^verbatim>\<open>updateLastSeen\<close>.  A \<open>presenceCall\<close> is a call
  of \<^verbatim>\<open>updateUserPresence\<close> with its arguments and the point it has reached: not started,
  after the \<^verbatim>\<open>SELECT\<close> with what \<^verbatim>\<open>Scan\<close> returned, or returned.  \<open>stepCall\<close> runs the next
  statement of a call (a call with \<^verbatim>\<open>inquiryConfidence > estimationConfidence\<close> has one
  statement only, that of \<^verbatim>\<open>endUserSession\<close>), and \<open>interleave\<close> runs the statements of
  several calls in the order of a schedule, which names the call that moves next.
\<close>

datatype callState = NotStarted | Selected "error + int" | Returned

record presenceCall =
  callUser :: int
  callEstimation :: int
  callInquiry :: int
  callTime :: time
  callRoom :: int
  reached :: callState

definition stepCall :: "db \<Rightarrow> presenceCall \<Rightarrow> db \<times> presenceCall" where
  "stepCall d c =
     (case reached c of
        NotStarted \<Rightarrow>
          if callInquiry c > callEstimation c
          then (orElse (endUserSession d (callUser c) (callTime c)) d, c\<lparr>reached := Returned\<rparr>)
          else if SelectOpenSession \<in> failing d then (d, c\<lparr>reached := Returned\<rparr>)
          else (case find (\<lambda>s. UserID s = callUser c \<and> EndTime s = None) (sessions d) of
                  None \<Rightarrow> (d, c\<lparr>reached := Selected (Inl ErrNoRows)\<rparr>)
                | Some existing \<Rightarrow> (d, c\<lparr>reached := Selected (Inr (RoomID existing))\<rparr>))
      | Selected (Inl err) \<Rightarrow>
          if err = ErrNoRows
          then (orElse (startUserSession d (callUser c) (callRoom c) (callTime c)) d,
                c\<lparr>reached := Returned\<rparr>)
          else (d, c\<lparr>reached := Returned\<rparr>)
      | Selected (Inr existingRoomID) \<Rightarrow>
          (orElse (updateLastSeen d (callUser c) (callTime c)) d, c\<lparr>reached := Returned\<rparr>)
      | Returned \<Rightarrow> (d, c))"


subsection \<open>The resolver contract in the words of the specification\<close>

text \<open>
  The index as a lookup that ignores case, and \<open>Resolve\<close> as the specification states
  it: no observation at all is \<open>NoSignalData\<close>; otherwise the first BLE observation that
  the index resolves gives the room, otherwise the first WiFi observation that it
  resolves, otherwise the result is \<open>NoMatch\<close>.
\<close>

definition sameIgnoringCase :: "string \<Rightarrow> string \<Rightarrow> bool" where
  "sameIgnoringCase a b = (LOWER a = LOWER b)"

definition indexLookup :: "(string \<times> int) list \<Rightarrow> string \<Rightarrow> int option" where
  "indexLookup table key = map_option snd (find (\<lambda>row. sameIgnoringCase (fst row) key) table)"

fun firstResolved :: "('a \<Rightarrow> int option) \<Rightarrow> 'a list \<Rightarrow> int option" where
  "firstResolved lookup [] = None"
| "firstResolved lookup (x # xs) =
     (case lookup x of None \<Rightarrow> firstResolved lookup xs | Some room \<Rightarrow> Some room)"

definition Resolve ::
  "(string \<Rightarrow> int option) \<Rightarrow> (string \<Rightarrow> int option) \<Rightarrow> string list \<Rightarrow> string list
     \<Rightarrow> error + int" where
  "Resolve lookupByBeacon lookupByWifi bleObservations wifiObservations =
     (if bleObservations = [] \<and> wifiObservations = [] then Inl ErrNoSignalData
      else case firstResolved lookupByBeacon bleObservations of
             Some room \<Rightarrow> Inr room
           | None \<Rightarrow>
               (case firstResolved lookupByWifi wifiObservations of
                  Some room \<Rightarrow> Inr room
                | None \<Rightarrow> Inl ErrNoMatch))"

subsection \<open>Example data\<close>

text \<open>
  An index with a beacon of room 7, a beacon whose row has room 0 and an access point of
  room 3; the same index without the row of room 0.  The session table is empty.
\<close>

definition exampleDb :: db where
  "exampleDb =
     \<lparr>sessions = [], session_seq = 1,
      beacons = [(''fda50693-a4e2-4fb1-afcf-c6eb07647825'', 7), (''0000feaa'', 0)],
      wifi_access_points = [(''aa:bb:cc:00:11:22'', 3)],
      failing = {}\<rparr>"

definition exampleIndexDb :: db where
  "exampleIndexDb = exampleDb\<lparr>beacons := [(''fda50693-a4e2-4fb1-afcf-c6eb07647825'', 7)]\<rparr>"

text \<open>
  Observations: a beacon the index does not know, the beacon of room 7, the beacon of
  the row with room 0, and the access point of room 3.
\<close>

definition beaconA :: BeaconSignal where
  "beaconA = \<lparr>UUID = ''A'', BeaconBSSID = [], BeaconRSSI = - 40\<rparr>"

definition beaconB :: BeaconSignal where
  "beaconB = \<lparr>UUID = ''FDA50693-A4E2-4FB1-AFCF-C6EB07647825'', BeaconBSSID = [], BeaconRSSI = - 70\<rparr>"

definition beaconZero :: BeaconSignal where
  "beaconZero = \<lparr>UUID = ''0000FEAA'', BeaconBSSID = [], BeaconRSSI = - 55\<rparr>"

definition wifiX :: WiFiSignal where
  "wifiX = \<lparr>SSID = ''lab'', BSSID = ''AA:BB:CC:00:11:22'', RSSI = - 50\<rparr>"

text \<open>
  An upload of user 42 at time 1000 with estimation confidence 45 and inquiry
  confidence 40, in which every collaborator answers.
\<close>

definition exampleUpload :: upload where
  "exampleUpload =
     \<lparr>ingest = Inr 42, currentTime = 1000, estimation = Inr 45, inquiry = Inr 40,
      bleCsv = Inr [beaconB], wifiCsv = Inr [wifiX],
      mkdirOk = True, copyWifiOk = True, copyBleOk = True, encodeOk = True\<rparr>"

text \<open>
  A table with a closed and an open session of user 42, and one that breaks the
  invariant: user 42 has two open sessions.
\<close>

definition exampleOpenDb :: db where
  "exampleOpenDb =
     exampleDb\<lparr>sessions :=
       [\<lparr>SessionID = 1, UserID = 42, RoomID = 5, StartTime = 100, EndTime = Some 200, LastSeen = 190\<rparr>,
        \<lparr>SessionID = 2, UserID = 42, RoomID = 5, StartTime = 400, EndTime = None, LastSeen = 400\<rparr>,
        \<lparr>SessionID = 3, UserID = 9, RoomID = 7, StartTime = 450, EndTime = None, LastSeen = 900\<rparr>],
       session_seq := 4\<rparr>"

definition exampleDoubleOpenDb :: db where
  "exampleDoubleOpenDb =
     exampleDb\<lparr>sessions :=
       [\<lparr>SessionID = 1, UserID = 42, RoomID = 5, StartTime = 100, EndTime = None, LastSeen = 100\<rparr>,
        \<lparr>SessionID = 2, UserID = 42, RoomID = 7, StartTime = 400, EndTime = None, LastSeen = 990\<rparr>,
        \<lparr>SessionID = 3, UserID = 9, RoomID = 7, StartTime = 450, EndTime = None, LastSeen = 900\<rparr>],
       session_seq := 4\<rparr>"




definition exampleClock :: "nat \<Rightarrow> time" where
  "exampleClock k = 1661 + int k"

section \<open>Auxiliary facts\<close>

subsection \<open>Rows of the session table after an update\<close>

lemma endUserSession_ok:
  "UpdateEndTime \<notin> failing d \<Longrightarrow>
   endUserSession d u t =
     Inr (d\<lparr>sessions := map (\<lambda>s. if isOpenFor u s then s\<lparr>EndTime := Some t\<rparr> else s) (sessions d)\<rparr>)"
  by (simp add: endUserSession_def isOpenFor_def)

lemma endUserSession_fail:
  "UpdateEndTime \<in> failing d \<Longrightarrow> endUserSession d u t = Inl (ErrDb UpdateEndTime)"
  by (simp add: endUserSession_def)

lemma updateLastSeen_ok:
  "UpdateLastSeen \<notin> failing d \<Longrightarrow>
   updateLastSeen d u t =
     Inr (d\<lparr>sessions := map (\<lambda>s. if isOpenFor u s then s\<lparr>LastSeen := t\<rparr> else s) (sessions d)\<rparr>)"
  by (simp add: updateLastSeen_def isOpenFor_def)

lemma isOpenFor_closed [simp]: "\<not> isOpenFor v (s\<lparr>EndTime := Some t\<rparr>)"
  by (simp add: isOpenFor_def)

lemma isOpenFor_touched [simp]: "isOpenFor v (s\<lparr>LastSeen := t\<rparr>) = isOpenFor v s"
  by (simp add: isOpenFor_def)

lemma isOpenFor_same_user: "isOpenFor u s \<Longrightarrow> isOpenFor v s \<Longrightarrow> v = u"
  by (simp add: isOpenFor_def)

lemma close_twice:
  "map (\<lambda>s. if isOpenFor u s then s\<lparr>EndTime := Some t\<rparr> else s)
     (map (\<lambda>s. if isOpenFor u s then s\<lparr>EndTime := Some t\<rparr> else s) xs) =
   map (\<lambda>s. if isOpenFor u s then s\<lparr>EndTime := Some t\<rparr> else s) xs"
  by (induction xs) simp_all

lemma close_none_open:
  "filter (isOpenFor u) xs = [] \<Longrightarrow>
   map (\<lambda>s. if isOpenFor u s then s\<lparr>EndTime := Some t\<rparr> else s) xs = xs"
  by (induction xs) (auto split: if_splits)

lemma open_after_close:
  "filter (isOpenFor v) (map (\<lambda>s. if isOpenFor u s then s\<lparr>EndTime := Some t\<rparr> else s) xs) =
   (if v = u then [] else filter (isOpenFor v) xs)"
  by (induction xs) (auto dest: isOpenFor_same_user)

lemma open_after_touch:
  "length (filter (isOpenFor v) (map (\<lambda>s. if isOpenFor u s then s\<lparr>LastSeen := t\<rparr> else s) xs)) =
   length (filter (isOpenFor v) xs)"
  by (induction xs) simp_all

subsection \<open>What \<^verbatim>\<open>updateUserPresence\<close> calls\<close>

lemma startUserSession_ok:
  "InsertSession \<notin> failing d \<Longrightarrow>
   startUserSession d u room t =
     Inr (d\<lparr>sessions := sessions d @
               [\<lparr>SessionID = session_seq d, UserID = u, RoomID = room,
                 StartTime = t, EndTime = None, LastSeen = t\<rparr>],
            session_seq := session_seq d + 1\<rparr>)"
  by (simp add: startUserSession_def)

lemma find_open_None: "find (\<lambda>s. UserID s = u \<and> EndTime s = None) xs = None \<longleftrightarrow> filter (isOpenFor u) xs = []"
  by (auto simp: find_None_iff filter_empty_conv isOpenFor_def)

lemma updateUserPresence_open:
  assumes "inq \<le> est" and "SelectOpenSession \<notin> failing d" and "0 < openCount d u"
  shows "updateUserPresence d u est inq t room = updateLastSeen d u t"
proof -
  have "find (\<lambda>s. UserID s = u \<and> EndTime s = None) (sessions d) \<noteq> None"
    using assms(3) by (simp add: find_open_None openCount_def)
  then show ?thesis
    using assms(1,2) by (auto simp: updateUserPresence_def)
qed

lemma updateUserPresence_none:
  assumes "inq \<le> est" and "SelectOpenSession \<notin> failing d" and "openCount d u = 0"
  shows "updateUserPresence d u est inq t room = startUserSession d u room t"
proof -
  have "find (\<lambda>s. UserID s = u \<and> EndTime s = None) (sessions d) = None"
    using assms(3) by (simp add: find_open_None openCount_def)
  then show ?thesis
    using assms(1,2) by (simp add: updateUserPresence_def)
qed

subsection \<open>The invariant is kept by every operation\<close>

lemma openCount_failing [simp]: "openCount (d\<lparr>failing := F\<rparr>) u = openCount d u"
  by (simp add: openCount_def)

lemma singleOpen_failing [simp]: "singleOpen (d\<lparr>failing := F\<rparr>) = singleOpen d"
  by (simp add: singleOpen_def)















subsection \<open>Rows of the session table after a round of the reaper\<close>

lemma endStale_length: "length (sessions (endStale d clock k uids)) = length (sessions d)"
proof (induction uids arbitrary: d k)
  case Nil
  then show ?case by simp
next
  case (Cons uid rest)
  show ?case
  proof (cases "UpdateEndTime \<in> failing d")
    case True
    then show ?thesis by (simp add: endUserSession_fail Cons.IH)
  next
    case False
    then show ?thesis by (simp add: endUserSession_ok Cons.IH)
  qed
qed

lemma endStale_untouched:
  assumes "i < length (sessions d)"
    and "UserID (sessions d ! i) \<notin> set uids \<or> EndTime (sessions d ! i) \<noteq> None"
  shows "sessions (endStale d clock k uids) ! i = sessions d ! i"
  using assms
proof (induction uids arbitrary: d k)
  case Nil
  then show ?case by simp
next
  case (Cons uid rest)
  show ?case
  proof (cases "UpdateEndTime \<in> failing d")
    case True
    have "sessions (endStale d clock (Suc k) rest) ! i = sessions d ! i"
      using Cons.prems by (intro Cons.IH) auto
    with True show ?thesis by (simp add: endUserSession_fail)
  next
    case False
    let ?d' = "d\<lparr>sessions := map (\<lambda>s. if isOpenFor uid s then s\<lparr>EndTime := Some (clock k)\<rparr> else s)
                  (sessions d)\<rparr>"
    have step: "endStale d clock k (uid # rest) = endStale ?d' clock (Suc k) rest"
      using False by (simp add: endUserSession_ok)
    have notopen: "\<not> isOpenFor uid (sessions d ! i)"
      using Cons.prems(2) by (auto simp: isOpenFor_def)
    with Cons.prems(1) have same: "sessions ?d' ! i = sessions d ! i"
      by simp
    have "sessions (endStale ?d' clock (Suc k) rest) ! i = sessions ?d' ! i"
      using Cons.prems same by (intro Cons.IH) auto
    with step same show ?thesis by simp
  qed
qed

lemma endStale_closes:
  assumes "UpdateEndTime \<notin> failing d" and "i < length (sessions d)"
    and "EndTime (sessions d ! i) = None" and "UserID (sessions d ! i) \<in> set uids"
  shows "\<exists>j\<ge>k. sessions (endStale d clock k uids) ! i =
           (sessions d ! i)\<lparr>EndTime := Some (clock j)\<rparr>"
  using assms
proof (induction uids arbitrary: d k)
  case Nil
  then show ?case by simp
next
  case (Cons uid rest)
  let ?d' = "d\<lparr>sessions := map (\<lambda>s. if isOpenFor uid s then s\<lparr>EndTime := Some (clock k)\<rparr> else s)
                (sessions d)\<rparr>"
  have step: "endStale d clock k (uid # rest) = endStale ?d' clock (Suc k) rest"
    using Cons.prems(1) by (simp add: endUserSession_ok)
  show ?case
  proof (cases "UserID (sessions d ! i) = uid")
    case True
    with Cons.prems have row: "sessions ?d' ! i = (sessions d ! i)\<lparr>EndTime := Some (clock k)\<rparr>"
      by (simp add: isOpenFor_def)
    then have "sessions (endStale ?d' clock (Suc k) rest) ! i = sessions ?d' ! i"
      using Cons.prems(2) by (intro endStale_untouched) auto
    with step row show ?thesis by auto
  next
    case False
    with Cons.prems have row: "sessions ?d' ! i = sessions d ! i"
      by (simp add: isOpenFor_def)
    have "\<exists>j\<ge>Suc k. sessions (endStale ?d' clock (Suc k) rest) ! i =
            (sessions ?d' ! i)\<lparr>EndTime := Some (clock j)\<rparr>"
      using Cons.prems False row by (intro Cons.IH) auto
    then obtain j where "Suc k \<le> j"
      and "sessions (endStale ?d' clock (Suc k) rest) ! i =
            (sessions ?d' ! i)\<lparr>EndTime := Some (clock j)\<rparr>"
      by blast
    with step row show ?thesis
      by (intro exI [of _ j]) simp
  qed
qed

lemma staleUsers_iff:
  "u \<in> set (staleUsers d cutoffTime) \<longleftrightarrow>
   (\<exists>s \<in> set (sessions d). UserID s = u \<and> EndTime s = None \<and> LastSeen s < cutoffTime)"
  by (auto simp: staleUsers_def)

subsection \<open>Case-insensitive comparison\<close>

lemma upper_lower_char: "upper_char (lower_char c) = upper_char c"
  by (simp add: upper_char_def lower_char_def)

lemma lower_upper_char: "lower_char (upper_char c) = lower_char c"
  by (simp add: upper_char_def lower_char_def)

lemma UPPER_LOWER: "UPPER (LOWER s) = UPPER s"
  by (simp add: UPPER_def LOWER_def upper_lower_char)

lemma LOWER_UPPER: "LOWER (UPPER s) = LOWER s"
  by (simp add: UPPER_def LOWER_def lower_upper_char)

lemma UPPER_eq_iff: "UPPER a = UPPER b \<longleftrightarrow> sameIgnoringCase a b"
proof
  assume "UPPER a = UPPER b"
  then have "LOWER (UPPER a) = LOWER (UPPER b)" by simp
  then show "sameIgnoringCase a b" by (simp add: LOWER_UPPER sameIgnoringCase_def)
next
  assume "sameIgnoringCase a b"
  then have "UPPER (LOWER a) = UPPER (LOWER b)" by (simp add: sameIgnoringCase_def)
  then show "UPPER a = UPPER b" by (simp add: UPPER_LOWER)
qed

subsection \<open>The lookups and the scans\<close>

lemma getRoomIDByBeacon_lookup:
  "SelectBeacon \<notin> failing d \<Longrightarrow>
   getRoomIDByBeacon d beacon =
     (case indexLookup (beacons d) (UUID beacon) of None \<Rightarrow> Inl ErrNoRows | Some room \<Rightarrow> Inr room)"
  by (simp add: getRoomIDByBeacon_def indexLookup_def UPPER_eq_iff split: option.splits)

lemma getRoomIDByWifi_lookup:
  "SelectWifi \<notin> failing d \<Longrightarrow>
   getRoomIDByWifi d wifi =
     (case indexLookup (wifi_access_points d) (BSSID wifi) of
        None \<Rightarrow> Inl ErrNoRows | Some room \<Rightarrow> Inr room)"
  by (simp add: getRoomIDByWifi_def indexLookup_def sameIgnoringCase_def split: option.splits)

lemma scanBeacons_firstResolved:
  "SelectBeacon \<notin> failing d \<Longrightarrow>
   scanBeacons d ble =
     (case firstResolved (indexLookup (beacons d)) (map UUID ble) of
        None \<Rightarrow> 0 | Some room \<Rightarrow> room)"
  by (induction ble) (simp_all add: getRoomIDByBeacon_lookup split: option.splits)

lemma scanWifi_firstResolved:
  "SelectWifi \<notin> failing d \<Longrightarrow>
   scanWifi d wifi =
     (case firstResolved (indexLookup (wifi_access_points d)) (map BSSID wifi) of
        None \<Rightarrow> 0 | Some room \<Rightarrow> room)"
  by (induction wifi) (simp_all add: getRoomIDByWifi_lookup split: option.splits)

lemma indexLookup_in_table: "indexLookup table key = Some room \<Longrightarrow> room \<in> snd ` set table"
  by (induction table) (auto simp: indexLookup_def split: if_splits)

lemma firstResolved_Some:
  "firstResolved lookup obs = Some room \<Longrightarrow> \<exists>x \<in> set obs. lookup x = Some room"
  by (induction obs) (auto split: option.splits)

lemma firstResolved_nonzero:
  assumes "0 \<notin> snd ` set table" and "firstResolved (indexLookup table) obs = Some room"
  shows "room \<noteq> 0"
proof -
  from assms(2) obtain x where "indexLookup table x = Some room"
    by (auto dest: firstResolved_Some)
  then have "room \<in> snd ` set table" by (rule indexLookup_in_table)
  with assms(1) show ?thesis by auto
qed

lemma scanBeacons_skip:
  "\<forall>x \<in> set pre. \<forall>r. getRoomIDByBeacon d x \<noteq> Inr r \<Longrightarrow>
   scanBeacons d (pre @ rest) = scanBeacons d rest"
  by (induction pre) (auto split: sum.splits)

lemma scanWifi_skip:
  "\<forall>x \<in> set pre. \<forall>r. getRoomIDByWifi d x \<noteq> Inr r \<Longrightarrow>
   scanWifi d (pre @ rest) = scanWifi d rest"
  by (induction pre) (auto split: sum.splits)

lemma scanBeacons_all_zero:
  "\<forall>b \<in> set ble. \<forall>r. getRoomIDByBeacon d b = Inr r \<longrightarrow> r = 0 \<Longrightarrow> scanBeacons d ble = 0"
  by (induction ble) (auto split: sum.splits)

lemma scanWifi_all_zero:
  "\<forall>w \<in> set wifi. \<forall>r. getRoomIDByWifi d w = Inr r \<longrightarrow> r = 0 \<Longrightarrow> scanWifi d wifi = 0"
  by (induction wifi) (auto split: sum.splits)

text \<open>Evaluation of the lookups of the examples.\<close>

lemma example_lookups:
  "getRoomIDByBeacon exampleDb beaconA = Inl ErrNoRows"
  "getRoomIDByBeacon exampleDb beaconB = Inr 7"
  "getRoomIDByBeacon exampleDb beaconZero = Inr 0"
  "getRoomIDByWifi exampleDb wifiX = Inr 3"
  by (simp_all add: getRoomIDByBeacon_def getRoomIDByWifi_def exampleDb_def beaconA_def
      beaconB_def beaconZero_def wifiX_def UPPER_def LOWER_def upper_char_def lower_char_def)

lemma example_index_lookups:
  "getRoomIDByBeacon exampleIndexDb beaconA = Inl ErrNoRows"
  "getRoomIDByBeacon exampleIndexDb beaconB = Inr 7"
  "getRoomIDByWifi exampleIndexDb wifiX = Inr 3"
  by (simp_all add: getRoomIDByBeacon_def getRoomIDByWifi_def exampleDb_def exampleIndexDb_def
      beaconA_def beaconB_def wifiX_def UPPER_def LOWER_def upper_char_def lower_char_def)

subsection \<open>The branches of the upload handler\<close>


lemma orElse_Inl: "orElse (Inl err) d = d"
  by (simp add: orElse_def)

lemma presentBranch_resolution_fails:
  "determineRoomID d (bleCsv up) (wifiCsv up) = Inl err \<Longrightarrow>
   reply (presentBranch up d u e i f) = HttpError 500 \<and> store (presentBranch up d u e i f) = d"
  by (simp add: presentBranch_def)


lemma presentBranch_resolved:
  "determineRoomID d (bleCsv up) (wifiCsv up) = Inr roomID \<Longrightarrow>
   reply (presentBranch up d u e i f) = respond up \<and>
   store (presentBranch up d u e i f) = orElse (updateUserPresence d u e i (currentTime up) roomID) d"
  by (simp add: presentBranch_def orElse_def split: sum.splits)



lemma presentBranch_disposition:
  "disposition (presentBranch up d u e i f) = Some (Present i)"
  by (simp add: presentBranch_def split: sum.splits)

lemma presentBranch_copies: "negativeCopies (presentBranch up d u e i f) = 0"
  by (simp add: presentBranch_def split: sum.splits)

lemma presentBranch_fetched: "inquiryFetched (presentBranch up d u e i f) = f"
  by (simp add: presentBranch_def split: sum.splits)

lemma presentBranch_inquiry: "presentBranch (up\<lparr>inquiry := x\<rparr>) d u e i f = presentBranch up d u e i f"
  by (simp add: presentBranch_def respond_def split: sum.splits)

lemma archiveBranch_store:
  "store (archiveBranch up d u) = orElse (endUserSession d u (currentTime up)) d"
  by (simp add: archiveBranch_def orElse_def Let_def split: sum.splits)

lemma archiveBranch_reply:
  "reply (archiveBranch up d u) =
     (if mkdirOk up \<and> copyWifiOk up \<and> copyBleOk up then respond up else HttpError 500)"
  by (simp add: archiveBranch_def Let_def)

lemma archiveBranch_disposition:
  "disposition (archiveBranch up d u) = Some AbsentWithArchive"
  by (simp add: archiveBranch_def Let_def)

lemma archiveBranch_copies:
  "negativeCopies (archiveBranch up d u) =
     (if \<not> mkdirOk up \<or> \<not> copyWifiOk up then 0 else if \<not> copyBleOk up then 1 else 2)"
  by (simp add: archiveBranch_def Let_def)

lemma archiveBranch_fetched: "inquiryFetched (archiveBranch up d u)"
  by (simp add: archiveBranch_def Let_def)

lemma absentBranch_store:
  "store (absentBranch up d u) = orElse (endUserSession d u (currentTime up)) d"
  by (simp add: absentBranch_def orElse_def Let_def split: sum.splits)

lemma absentBranch_reply: "reply (absentBranch up d u) = respond up"
  by (simp add: absentBranch_def Let_def)

lemma absentBranch_disposition: "disposition (absentBranch up d u) = Some Absent"
  by (simp add: absentBranch_def Let_def)

lemma absentBranch_copies: "negativeCopies (absentBranch up d u) = 0"
  by (simp add: absentBranch_def Let_def)

lemma absentBranch_fetched: "\<not> inquiryFetched (absentBranch up d u)"
  by (simp add: absentBranch_def Let_def)

lemma absentBranch_inquiry: "absentBranch (up\<lparr>inquiry := x\<rparr>) d u = absentBranch up d u"
  by (simp add: absentBranch_def respond_def)

lemma handleSignalsSubmit_low:
  "ingest up = Inr u \<Longrightarrow> estimation up = Inr e \<Longrightarrow> e < 20 \<Longrightarrow>
   handleSignalsSubmit up d = absentBranch up d u"
  by (simp add: handleSignalsSubmit_def)

lemma handleSignalsSubmit_high:
  "ingest up = Inr u \<Longrightarrow> estimation up = Inr e \<Longrightarrow> 70 < e \<Longrightarrow>
   handleSignalsSubmit up d = presentBranch up d u e 0 False"
  by (simp add: handleSignalsSubmit_def)

lemma handleSignalsSubmit_mid_present:
  "ingest up = Inr u \<Longrightarrow> estimation up = Inr e \<Longrightarrow> 20 \<le> e \<Longrightarrow> e \<le> 70 \<Longrightarrow>
   inquiry up = Inr i \<Longrightarrow> i \<le> e \<Longrightarrow>
   handleSignalsSubmit up d = presentBranch up d u e i True"
  by (simp add: handleSignalsSubmit_def)

lemma handleSignalsSubmit_mid_archive:
  "ingest up = Inr u \<Longrightarrow> estimation up = Inr e \<Longrightarrow> 20 \<le> e \<Longrightarrow> e \<le> 70 \<Longrightarrow>
   inquiry up = Inr i \<Longrightarrow> e < i \<Longrightarrow>
   handleSignalsSubmit up d = archiveBranch up d u"
  by (simp add: handleSignalsSubmit_def)

lemma handleSignalsSubmit_mid_fetched:
  "ingest up = Inr u \<Longrightarrow> estimation up = Inr e \<Longrightarrow> 20 \<le> e \<Longrightarrow> e \<le> 70 \<Longrightarrow>
   inquiryFetched (handleSignalsSubmit up d)"
  by (simp add: handleSignalsSubmit_def presentBranch_fetched archiveBranch_fetched split: sum.splits)


subsection \<open>Open sessions after a session operation\<close>

lemma openCount_after_end:
  "UpdateEndTime \<notin> failing d \<Longrightarrow> openCount (orElse (endUserSession d u t) d) u = 0"
  by (simp add: endUserSession_ok orElse_def openCount_def open_after_close del: filter_map)

lemma openCount_after_presence:
  assumes "i \<le> e" and "SelectOpenSession \<notin> failing d" and "InsertSession \<notin> failing d"
    and "UpdateLastSeen \<notin> failing d"
  shows "openCount (orElse (updateUserPresence d u e i t room) d) u =
           (if openCount d u = 0 then 1 else openCount d u)"
proof (cases "openCount d u = 0")
  case True
  with assms show ?thesis
    by (simp add: updateUserPresence_none startUserSession_ok orElse_def openCount_def isOpenFor_def)
next
  case False
  with assms show ?thesis
    by (simp add: updateUserPresence_open updateLastSeen_ok orElse_def openCount_def
        open_after_touch del: filter_map length_filter_map)
qed

subsection \<open>The two statements of \<^verbatim>\<open>updateUserPresence\<close>\<close>

text \<open>
  A call that runs its statements without another call in between does what
  \<^verbatim>\<open>updateUserPresence\<close> does.
\<close>

lemma stepCall_both:
  assumes "reached c = NotStarted"
  shows "fst (stepCall (fst (stepCall d c)) (snd (stepCall d c))) =
    orElse (updateUserPresence d (callUser c) (callEstimation c) (callInquiry c) (callTime c)
      (callRoom c)) d"
  using assms
  by (auto simp: stepCall_def updateUserPresence_def orElse_Inl split: option.splits)

subsection \<open>Every row after a round of the reaper\<close>

lemma tick_row:
  assumes "SelectStale \<notin> failing d" and "UpdateEndTime \<notin> failing d"
    and "j < length (sessions d)"
  shows "if EndTime (sessions d ! j) = None \<and>
            (\<exists>s \<in> set (sessions d). UserID s = UserID (sessions d ! j) \<and> EndTime s = None \<and>
               LastSeen s < clock 0 - delta)
         then \<exists>k\<ge>1. sessions (cleanUpOldSessions_tick d delta clock) ! j =
                (sessions d ! j)\<lparr>EndTime := Some (clock k)\<rparr>
         else sessions (cleanUpOldSessions_tick d delta clock) ! j = sessions d ! j"
proof (cases "EndTime (sessions d ! j) = None \<and>
    UserID (sessions d ! j) \<in> set (staleUsers d (clock 0 - delta))")
  case True
  then have "\<exists>k\<ge>1. sessions (endStale d clock 1 (staleUsers d (clock 0 - delta))) ! j =
      (sessions d ! j)\<lparr>EndTime := Some (clock k)\<rparr>"
    using assms(2,3) by (intro endStale_closes) auto
  with True assms(1) show ?thesis
    by (simp add: cleanUpOldSessions_tick_def Let_def staleUsers_iff)
next
  case False
  then have "sessions (endStale d clock 1 (staleUsers d (clock 0 - delta))) ! j = sessions d ! j"
    using assms(3) by (intro endStale_untouched) auto
  with False assms(1) show ?thesis
    by (auto simp: cleanUpOldSessions_tick_def Let_def staleUsers_iff)
qed

subsection \<open>Evaluation of the example upload\<close>

lemma example_resolution:
  "determineRoomID exampleDb (bleCsv exampleUpload) (wifiCsv exampleUpload) = Inr 7"
  "determineRoomID exampleOpenDb (bleCsv exampleUpload) (wifiCsv exampleUpload) = Inr 7"
  "determineRoomID (exampleDb\<lparr>failing := {InsertSession}\<rparr>) (bleCsv exampleUpload) (wifiCsv exampleUpload) = Inr 7"
  by (simp_all add: determineRoomID_def exampleUpload_def getRoomIDByBeacon_def exampleDb_def exampleOpenDb_def
      beaconB_def UPPER_def upper_char_def)

lemma example_facts:
  "ingest exampleUpload = Inr 42" "estimation exampleUpload = Inr 45"
  "inquiry exampleUpload = Inr 40" "currentTime exampleUpload = 1000"
  "respond exampleUpload = Received"
  "failing exampleDb = {}" "openCount exampleDb 42 = 0"
  by (simp_all add: exampleUpload_def exampleDb_def respond_def openCount_def)


section \<open>Confidence fusion\<close>

text \<open>
  Claim C1.  For an upload that reaches the confidence decision with estimation
  confidence \<open>e\<close>, for every integer \<open>e\<close> and in particular for 0 to 100:

  \<^item> below 20 the branch is \<open>Absent\<close>: the inquiry server is not called and its answer
    has no influence on the outcome, the session of the user is ended (the table is what
    \<^verbatim>\<open>endUserSession\<close> leaves, with no open session of the user when its update does not
    fail), nothing is archived and the upload is answered as received;

  \<^item> from 20 to 70 the inquiry server is called.  When it answers \<open>i \<le> e\<close> (a tie
    included) the branch is \<open>Present i\<close>: the room is resolved, and the table is what
    \<^verbatim>\<open>updateUserPresence\<close> with inquiry confidence \<open>i\<close> and that room leaves, so that, when
    no statement fails, a user without an open session has one afterwards and a user
    with open sessions keeps them; nothing is archived.  When it answers \<open>i > e\<close> the
    branch is \<open>AbsentWithArchive\<close>: the session is ended and the two files are copied to
    the negative samples;

  \<^item> above 70 the branch is \<open>Present 0\<close>: as for \<open>Present i\<close> with inquiry confidence 0,
    and the inquiry server is not called and its answer has no influence.
\<close>

theorem fusion_decision_table:
  fixes up :: upload and userID :: int and e :: int and d :: db
  assumes "ingest up = Inr userID" and "estimation up = Inr e"
  defines "out \<equiv> handleSignalsSubmit up d"
  shows "(e < 20 \<longrightarrow>
            disposition out = Some Absent \<and> \<not> inquiryFetched out \<and>
            (\<forall>x. handleSignalsSubmit (up\<lparr>inquiry := x\<rparr>) d = out) \<and>
            store out = orElse (endUserSession d userID (currentTime up)) d \<and>
            (UpdateEndTime \<notin> failing d \<longrightarrow> openCount (store out) userID = 0) \<and>
            reply out = respond up \<and> negativeCopies out = 0) \<and>
         (20 \<le> e \<and> e \<le> 70 \<longrightarrow>
            inquiryFetched out \<and>
            (\<forall>i. inquiry up = Inr i \<and> i \<le> e \<longrightarrow>
               disposition out = Some (Present i) \<and> negativeCopies out = 0 \<and>
               (\<forall>err. determineRoomID d (bleCsv up) (wifiCsv up) = Inl err \<longrightarrow>
                  reply out = HttpError 500 \<and> store out = d) \<and>
               (\<forall>roomID. determineRoomID d (bleCsv up) (wifiCsv up) = Inr roomID \<longrightarrow>
                  reply out = respond up \<and>
                  store out = orElse (updateUserPresence d userID e i (currentTime up) roomID) d \<and>
                  (failing d = {} \<longrightarrow>
                     openCount (store out) userID =
                       (if openCount d userID = 0 then 1 else openCount d userID)))) \<and>
            (\<forall>i. inquiry up = Inr i \<and> e < i \<longrightarrow>
               disposition out = Some AbsentWithArchive \<and>
               store out = orElse (endUserSession d userID (currentTime up)) d \<and>
               (UpdateEndTime \<notin> failing d \<longrightarrow> openCount (store out) userID = 0) \<and>
               reply out =
                 (if mkdirOk up \<and> copyWifiOk up \<and> copyBleOk up then respond up else HttpError 500) \<and>
               negativeCopies out =
                 (if \<not> mkdirOk up \<or> \<not> copyWifiOk up then 0 else if \<not> copyBleOk up then 1 else 2))) \<and>
         (70 < e \<longrightarrow>
            disposition out = Some (Present 0) \<and> \<not> inquiryFetched out \<and>
            (\<forall>x. handleSignalsSubmit (up\<lparr>inquiry := x\<rparr>) d = out) \<and>
            negativeCopies out = 0 \<and>
            (\<forall>err. determineRoomID d (bleCsv up) (wifiCsv up) = Inl err \<longrightarrow>
               reply out = HttpError 500 \<and> store out = d) \<and>
            (\<forall>roomID. determineRoomID d (bleCsv up) (wifiCsv up) = Inr roomID \<longrightarrow>
               reply out = respond up \<and>
               store out = orElse (updateUserPresence d userID e 0 (currentTime up) roomID) d \<and>
               (failing d = {} \<longrightarrow>
                  openCount (store out) userID =
                    (if openCount d userID = 0 then 1 else openCount d userID))))"
proof (intro conjI)
  show "e < 20 \<longrightarrow>
            disposition out = Some Absent \<and> \<not> inquiryFetched out \<and>
            (\<forall>x. handleSignalsSubmit (up\<lparr>inquiry := x\<rparr>) d = out) \<and>
            store out = orElse (endUserSession d userID (currentTime up)) d \<and>
            (UpdateEndTime \<notin> failing d \<longrightarrow> openCount (store out) userID = 0) \<and>
            reply out = respond up \<and> negativeCopies out = 0"
  proof
    assume low: "e < 20"
    have out: "out = absentBranch up d userID"
      unfolding out_def using assms(1,2) low by (rule handleSignalsSubmit_low)
    have indep: "handleSignalsSubmit (up\<lparr>inquiry := x\<rparr>) d = out" for x
      using handleSignalsSubmit_low [of "up\<lparr>inquiry := x\<rparr>" userID e d] assms(1,2) low
      by (simp add: out absentBranch_inquiry)
    show "disposition out = Some Absent \<and> \<not> inquiryFetched out \<and>
            (\<forall>x. handleSignalsSubmit (up\<lparr>inquiry := x\<rparr>) d = out) \<and>
            store out = orElse (endUserSession d userID (currentTime up)) d \<and>
            (UpdateEndTime \<notin> failing d \<longrightarrow> openCount (store out) userID = 0) \<and>
            reply out = respond up \<and> negativeCopies out = 0"
      using indep
      by (simp add: out absentBranch_disposition absentBranch_fetched absentBranch_store
          absentBranch_reply absentBranch_copies openCount_after_end)
  qed
next
  show "20 \<le> e \<and> e \<le> 70 \<longrightarrow>
            inquiryFetched out \<and>
            (\<forall>i. inquiry up = Inr i \<and> i \<le> e \<longrightarrow>
               disposition out = Some (Present i) \<and> negativeCopies out = 0 \<and>
               (\<forall>err. determineRoomID d (bleCsv up) (wifiCsv up) = Inl err \<longrightarrow>
                  reply out = HttpError 500 \<and> store out = d) \<and>
               (\<forall>roomID. determineRoomID d (bleCsv up) (wifiCsv up) = Inr roomID \<longrightarrow>
                  reply out = respond up \<and>
                  store out = orElse (updateUserPresence d userID e i (currentTime up) roomID) d \<and>
                  (failing d = {} \<longrightarrow>
                     openCount (store out) userID =
                       (if openCount d userID = 0 then 1 else openCount d userID)))) \<and>
            (\<forall>i. inquiry up = Inr i \<and> e < i \<longrightarrow>
               disposition out = Some AbsentWithArchive \<and>
               store out = orElse (endUserSession d userID (currentTime up)) d \<and>
               (UpdateEndTime \<notin> failing d \<longrightarrow> openCount (store out) userID = 0) \<and>
               reply out =
                 (if mkdirOk up \<and> copyWifiOk up \<and> copyBleOk up then respond up else HttpError 500) \<and>
               negativeCopies out =
                 (if \<not> mkdirOk up \<or> \<not> copyWifiOk up then 0 else if \<not> copyBleOk up then 1 else 2))"
  proof (intro impI conjI allI)
    assume "20 \<le> e \<and> e \<le> 70"
    then show "inquiryFetched out"
      unfolding out_def using assms(1,2) by (intro handleSignalsSubmit_mid_fetched) auto
  next
    fix i
    assume mid: "20 \<le> e \<and> e \<le> 70" and i: "inquiry up = Inr i \<and> i \<le> e"
    have out: "out = presentBranch up d userID e i True"
      unfolding out_def using assms(1,2) mid i by (intro handleSignalsSubmit_mid_present) auto
    show "disposition out = Some (Present i)"
      by (simp add: out presentBranch_disposition)
    show "negativeCopies out = 0"
      by (simp add: out presentBranch_copies)
    {
      fix err
      assume "determineRoomID d (bleCsv up) (wifiCsv up) = Inl err"
      then show "reply out = HttpError 500" "store out = d"
        by (simp_all add: out presentBranch_resolution_fails)
    }
    {
      fix roomID
      assume r: "determineRoomID d (bleCsv up) (wifiCsv up) = Inr roomID"
      then show "reply out = respond up"
        and s: "store out = orElse (updateUserPresence d userID e i (currentTime up) roomID) d"
        by (simp_all add: out presentBranch_resolved)
      assume "failing d = {}"
      with i show "openCount (store out) userID =
          (if openCount d userID = 0 then 1 else openCount d userID)"
        unfolding s by (intro openCount_after_presence) auto
    }
  next
    fix i
    assume mid: "20 \<le> e \<and> e \<le> 70" and i: "inquiry up = Inr i \<and> e < i"
    have out: "out = archiveBranch up d userID"
      unfolding out_def using assms(1,2) mid i by (intro handleSignalsSubmit_mid_archive) auto
    show "disposition out = Some AbsentWithArchive"
      by (simp add: out archiveBranch_disposition)
    show "store out = orElse (endUserSession d userID (currentTime up)) d"
      by (simp add: out archiveBranch_store)
    show "reply out =
        (if mkdirOk up \<and> copyWifiOk up \<and> copyBleOk up then respond up else HttpError 500)"
      by (simp only: out archiveBranch_reply)
    show "negativeCopies out =
        (if \<not> mkdirOk up \<or> \<not> copyWifiOk up then 0 else if \<not> copyBleOk up then 1 else 2)"
      by (simp only: out archiveBranch_copies)
    assume "UpdateEndTime \<notin> failing d"
    then show "openCount (store out) userID = 0"
      by (simp add: out archiveBranch_store openCount_after_end)
  qed
next
  show "70 < e \<longrightarrow>
            disposition out = Some (Present 0) \<and> \<not> inquiryFetched out \<and>
            (\<forall>x. handleSignalsSubmit (up\<lparr>inquiry := x\<rparr>) d = out) \<and>
            negativeCopies out = 0 \<and>
            (\<forall>err. determineRoomID d (bleCsv up) (wifiCsv up) = Inl err \<longrightarrow>
               reply out = HttpError 500 \<and> store out = d) \<and>
            (\<forall>roomID. determineRoomID d (bleCsv up) (wifiCsv up) = Inr roomID \<longrightarrow>
               reply out = respond up \<and>
               store out = orElse (updateUserPresence d userID e 0 (currentTime up) roomID) d \<and>
               (failing d = {} \<longrightarrow>
                  openCount (store out) userID =
                    (if openCount d userID = 0 then 1 else openCount d userID)))"
  proof (intro impI conjI allI)
    assume high: "70 < e"
    have out: "out = presentBranch up d userID e 0 False"
      unfolding out_def using assms(1,2) high by (rule handleSignalsSubmit_high)
    show "disposition out = Some (Present 0)"
      by (simp add: out presentBranch_disposition)
    show "\<not> inquiryFetched out"
      by (simp add: out presentBranch_fetched)
    show "negativeCopies out = 0"
      by (simp add: out presentBranch_copies)
    {
      fix x
      show "handleSignalsSubmit (up\<lparr>inquiry := x\<rparr>) d = out"
        using handleSignalsSubmit_high [of "up\<lparr>inquiry := x\<rparr>" userID e d] assms(1,2) high
        by (simp add: out presentBranch_inquiry)
    }
    {
      fix err
      assume "determineRoomID d (bleCsv up) (wifiCsv up) = Inl err"
      then show "reply out = HttpError 500" "store out = d"
        by (simp_all add: out presentBranch_resolution_fails)
    }
    {
      fix roomID
      assume r: "determineRoomID d (bleCsv up) (wifiCsv up) = Inr roomID"
      then show "reply out = respond up"
        and s: "store out = orElse (updateUserPresence d userID e 0 (currentTime up) roomID) d"
        by (simp_all add: out presentBranch_resolved)
      assume "failing d = {}"
      with high show "openCount (store out) userID =
          (if openCount d userID = 0 then 1 else openCount d userID)"
        unfolding s by (intro openCount_after_presence) auto
    }
  qed
qed

theorem fusion_decision_table_witness:
  "disposition (handleSignalsSubmit exampleUpload exampleDb) = Some (Present 40) \<and>
   inquiryFetched (handleSignalsSubmit exampleUpload exampleDb) \<and>
   reply (handleSignalsSubmit exampleUpload exampleDb) = Received \<and>
   store (handleSignalsSubmit exampleUpload exampleDb) =
     orElse (updateUserPresence exampleDb 42 45 40 1000 7) exampleDb \<and>
   openCount (store (handleSignalsSubmit exampleUpload exampleDb)) 42 = 1"
  using fusion_decision_table [of exampleUpload 42 45 exampleDb]
  by (auto simp: example_facts example_resolution)

text \<open>
  Claim C7.  When the estimation confidence is between 20 and 70 and the call to the
  inquiry server fails, the upload is answered with status 500, the database is left as
  it was (no session is started, ended or refreshed), no branch of the decision is
  taken and nothing is copied to the negative samples.
\<close>

theorem arbiter_failure_atomic:
  assumes "ingest up = Inr userID" and "estimation up = Inr e"
    and "20 \<le> e" and "e \<le> 70" and "inquiry up = Inl err"
  shows "reply (handleSignalsSubmit up d) = HttpError 500 \<and>
         store (handleSignalsSubmit up d) = d \<and>
         disposition (handleSignalsSubmit up d) = None \<and>
         negativeCopies (handleSignalsSubmit up d) = 0"
  using assms by (simp add: handleSignalsSubmit_def)

theorem arbiter_failure_atomic_witness:
  "reply (handleSignalsSubmit (exampleUpload\<lparr>inquiry := Inl ErrFetch\<rparr>) exampleOpenDb) = HttpError 500 \<and>
   store (handleSignalsSubmit (exampleUpload\<lparr>inquiry := Inl ErrFetch\<rparr>) exampleOpenDb) = exampleOpenDb \<and>
   disposition (handleSignalsSubmit (exampleUpload\<lparr>inquiry := Inl ErrFetch\<rparr>) exampleOpenDb) = None"
  using arbiter_failure_atomic [of "exampleUpload\<lparr>inquiry := Inl ErrFetch\<rparr>" 42 45 ErrFetch exampleOpenDb]
  by (simp add: exampleUpload_def)

section \<open>Failures of an upload\<close>




section \<open>Ending a session\<close>

text \<open>
  Claim C6.  Ending a user's session twice with the same time leaves the database as
  ending it once does, whatever the database holds and whether or not the statement
  fails; once the first call has returned without an error the second returns the same
  database; a call whose statement does not fail returns without an error; and for a
  user without an open session such a call returns the database unchanged.
\<close>

theorem endUserSession_idempotent:
  "orElse (endUserSession (orElse (endUserSession d u t) d) u t) (orElse (endUserSession d u t) d)
     = orElse (endUserSession d u t) d \<and>
   (\<forall>d1. endUserSession d u t = Inr d1 \<longrightarrow> endUserSession d1 u t = Inr d1) \<and>
   (UpdateEndTime \<notin> failing d \<longrightarrow> (\<exists>d1. endUserSession d u t = Inr d1)) \<and>
   (UpdateEndTime \<notin> failing d \<and> openCount d u = 0 \<longrightarrow> endUserSession d u t = Inr d)"
proof (cases "UpdateEndTime \<in> failing d")
  case True
  then show ?thesis
    by (simp add: endUserSession_fail orElse_def)
next
  case False
  let ?d1 = "d\<lparr>sessions := map (\<lambda>s. if isOpenFor u s then s\<lparr>EndTime := Some t\<rparr> else s) (sessions d)\<rparr>"
  have once: "endUserSession d u t = Inr ?d1"
    using False by (rule endUserSession_ok)
  have "UpdateEndTime \<notin> failing ?d1"
    using False by simp
  then have twice: "endUserSession ?d1 u t = Inr ?d1"
    by (simp add: endUserSession_ok close_twice)
  have nosession: "openCount d u = 0 \<Longrightarrow> ?d1 = d"
    by (simp add: openCount_def close_none_open)
  show ?thesis
    using False once twice nosession by (auto simp: orElse_def)
qed

theorem endUserSession_idempotent_witness:
  "endUserSession exampleDb 42 1000 = Inr exampleDb \<and>
   (\<exists>d1. endUserSession exampleOpenDb 42 1000 = Inr d1 \<and> endUserSession d1 42 1000 = Inr d1)"
proof -
  have f: "UpdateEndTime \<notin> failing exampleDb" "openCount exampleDb 42 = 0"
    "UpdateEndTime \<notin> failing exampleOpenDb"
    by (simp_all add: exampleDb_def exampleOpenDb_def openCount_def)
  from f endUserSession_idempotent [of exampleDb 42 1000]
    endUserSession_idempotent [of exampleOpenDb 42 1000]
  show ?thesis by blast
qed

text \<open>
  Claim C10.  When its statement does not fail, \<^verbatim>\<open>endUserSession\<close> returns a database in
  which the user has no open session, however many the user had: every open row of the
  user gets the end time, every other row (closed rows of the user, all rows of other
  users) is unchanged, and the number of open sessions of every other user is the same.
\<close>

theorem endUserSession_closes_all:
  assumes "UpdateEndTime \<notin> failing d"
  shows "\<exists>d'. endUserSession d u t = Inr d' \<and>
           openCount d' u = 0 \<and>
           length (sessions d') = length (sessions d) \<and>
           (\<forall>i < length (sessions d).
              (isOpenFor u (sessions d ! i) \<longrightarrow>
                 sessions d' ! i = (sessions d ! i)\<lparr>EndTime := Some t\<rparr>) \<and>
              (\<not> isOpenFor u (sessions d ! i) \<longrightarrow> sessions d' ! i = sessions d ! i)) \<and>
           (\<forall>v. v \<noteq> u \<longrightarrow> openCount d' v = openCount d v)"
  using assms by (simp add: endUserSession_ok openCount_def open_after_close)

theorem endUserSession_closes_all_witness:
  "openCount exampleDoubleOpenDb 42 = 2 \<and>
   (\<exists>d'. endUserSession exampleDoubleOpenDb 42 1000 = Inr d' \<and> openCount d' 42 = 0 \<and>
      sessions d' ! 2 = sessions exampleDoubleOpenDb ! 2)"
proof -
  have f: "UpdateEndTime \<notin> failing exampleDoubleOpenDb"
    by (simp add: exampleDoubleOpenDb_def exampleDb_def)
  have g: "2 < length (sessions exampleDoubleOpenDb)"
    "\<not> isOpenFor 42 (sessions exampleDoubleOpenDb ! 2)"
    "openCount exampleDoubleOpenDb 42 = 2"
    by (simp_all add: exampleDoubleOpenDb_def exampleDb_def isOpenFor_def openCount_def)
  from endUserSession_closes_all [OF f, of 42 1000] g
  show ?thesis by blast
qed

section \<open>Refreshing a session\<close>

text \<open>
  Claim C5.  When its statement does not fail, \<^verbatim>\<open>updateLastSeen\<close> sets \<^verbatim>\<open>last_seen\<close> of
  the user's open session to the given time and changes nothing else: the table keeps
  its length, every row keeps its id, user, room, start time and end time, rows that
  are not open rows of the user keep \<^verbatim>\<open>last_seen\<close> too, and the other tables are the same.
  This is what \<^verbatim>\<open>updateUserPresence\<close> does for a user with an open session, whatever
  room was resolved for the upload.  A second refresh at another time leaves that time
  in \<^verbatim>\<open>last_seen\<close>, the room and the start time still those of the session, and the
  session still open.
\<close>

theorem heartbeat_frame:
  assumes "UpdateLastSeen \<notin> failing d"
  shows "\<exists>d'. updateLastSeen d u t = Inr d' \<and>
           length (sessions d') = length (sessions d) \<and>
           (\<forall>i < length (sessions d).
              SessionID (sessions d' ! i) = SessionID (sessions d ! i) \<and>
              UserID (sessions d' ! i) = UserID (sessions d ! i) \<and>
              RoomID (sessions d' ! i) = RoomID (sessions d ! i) \<and>
              StartTime (sessions d' ! i) = StartTime (sessions d ! i) \<and>
              EndTime (sessions d' ! i) = EndTime (sessions d ! i) \<and>
              LastSeen (sessions d' ! i) =
                (if isOpenFor u (sessions d ! i) then t else LastSeen (sessions d ! i))) \<and>
           session_seq d' = session_seq d \<and> beacons d' = beacons d \<and>
           wifi_access_points d' = wifi_access_points d \<and>
           (\<forall>est inq room.
              inq \<le> est \<and> SelectOpenSession \<notin> failing d \<and> 0 < openCount d u \<longrightarrow>
              updateUserPresence d u est inq t room = Inr d') \<and>
           (\<forall>t2. \<exists>d''. updateLastSeen d' u t2 = Inr d'' \<and>
              length (sessions d'') = length (sessions d) \<and>
              (\<forall>i < length (sessions d).
                 isOpenFor u (sessions d ! i) \<longrightarrow>
                 LastSeen (sessions d'' ! i) = t2 \<and>
                 RoomID (sessions d'' ! i) = RoomID (sessions d ! i) \<and>
                 StartTime (sessions d'' ! i) = StartTime (sessions d ! i) \<and>
                 EndTime (sessions d'' ! i) = None))"
proof -
  let ?touch = "\<lambda>t s. if isOpenFor u s then s\<lparr>LastSeen := t\<rparr> else s"
  let ?d' = "d\<lparr>sessions := map (?touch t) (sessions d)\<rparr>"
  have first: "updateLastSeen d u t = Inr ?d'"
    using assms by (rule updateLastSeen_ok)
  have frame: "\<forall>i < length (sessions d).
      SessionID (sessions ?d' ! i) = SessionID (sessions d ! i) \<and>
      UserID (sessions ?d' ! i) = UserID (sessions d ! i) \<and>
      RoomID (sessions ?d' ! i) = RoomID (sessions d ! i) \<and>
      StartTime (sessions ?d' ! i) = StartTime (sessions d ! i) \<and>
      EndTime (sessions ?d' ! i) = EndTime (sessions d ! i) \<and>
      LastSeen (sessions ?d' ! i) =
        (if isOpenFor u (sessions d ! i) then t else LastSeen (sessions d ! i))"
    by simp
  have applied: "\<forall>est inq room.
      inq \<le> est \<and> SelectOpenSession \<notin> failing d \<and> 0 < openCount d u \<longrightarrow>
      updateUserPresence d u est inq t room = Inr ?d'"
    using first by (simp add: updateUserPresence_open)
  have second: "\<exists>d''. updateLastSeen ?d' u t2 = Inr d'' \<and>
      length (sessions d'') = length (sessions d) \<and>
      (\<forall>i < length (sessions d).
         isOpenFor u (sessions d ! i) \<longrightarrow>
         LastSeen (sessions d'' ! i) = t2 \<and>
         RoomID (sessions d'' ! i) = RoomID (sessions d ! i) \<and>
         StartTime (sessions d'' ! i) = StartTime (sessions d ! i) \<and>
         EndTime (sessions d'' ! i) = None)" for t2
  proof -
    have "UpdateLastSeen \<notin> failing ?d'"
      using assms by simp
    then have "updateLastSeen ?d' u t2 =
        Inr (?d'\<lparr>sessions := map (?touch t2) (sessions ?d')\<rparr>)"
      by (rule updateLastSeen_ok)
    then show ?thesis
      by (auto simp: isOpenFor_def)
  qed
  show ?thesis
    using first frame applied second by (intro exI [of _ ?d']) simp
qed

theorem heartbeat_frame_witness:
  "\<exists>d'. updateUserPresence exampleOpenDb 42 85 0 1000 9 = Inr d' \<and>
     LastSeen (sessions d' ! 1) = 1000 \<and> RoomID (sessions d' ! 1) = 5 \<and>
     StartTime (sessions d' ! 1) = 400 \<and> EndTime (sessions d' ! 1) = None \<and>
     LastSeen (sessions d' ! 2) = 900"
proof -
  have f: "UpdateLastSeen \<notin> failing exampleOpenDb" "SelectOpenSession \<notin> failing exampleOpenDb"
    "0 < openCount exampleOpenDb 42" "(0::int) \<le> 85"
    "1 < length (sessions exampleOpenDb)" "2 < length (sessions exampleOpenDb)"
    "isOpenFor 42 (sessions exampleOpenDb ! 1)" "\<not> isOpenFor 42 (sessions exampleOpenDb ! 2)"
    "RoomID (sessions exampleOpenDb ! 1) = 5" "StartTime (sessions exampleOpenDb ! 1) = 400"
    "EndTime (sessions exampleOpenDb ! 1) = None" "LastSeen (sessions exampleOpenDb ! 2) = 900"
    by (simp_all add: exampleOpenDb_def exampleDb_def openCount_def isOpenFor_def)
  from heartbeat_frame [OF f(1), of 42 1000] obtain d' where
    d': "updateLastSeen exampleOpenDb 42 1000 = Inr d'"
    and rows: "\<forall>i < length (sessions exampleOpenDb).
              SessionID (sessions d' ! i) = SessionID (sessions exampleOpenDb ! i) \<and>
              UserID (sessions d' ! i) = UserID (sessions exampleOpenDb ! i) \<and>
              RoomID (sessions d' ! i) = RoomID (sessions exampleOpenDb ! i) \<and>
              StartTime (sessions d' ! i) = StartTime (sessions exampleOpenDb ! i) \<and>
              EndTime (sessions d' ! i) = EndTime (sessions exampleOpenDb ! i) \<and>
              LastSeen (sessions d' ! i) =
                (if isOpenFor 42 (sessions exampleOpenDb ! i) then 1000
                 else LastSeen (sessions exampleOpenDb ! i))"
    and ap: "\<forall>est inq room.
              inq \<le> est \<and> SelectOpenSession \<notin> failing exampleOpenDb \<and>
              0 < openCount exampleOpenDb 42 \<longrightarrow>
              updateUserPresence exampleOpenDb 42 est inq 1000 room = Inr d'"
    by blast
  from ap f have "updateUserPresence exampleOpenDb 42 85 0 1000 9 = Inr d'"
    by blast
  moreover from rows f(5,7,9,10,11) have "LastSeen (sessions d' ! 1) = 1000 \<and> RoomID (sessions d' ! 1) = 5 \<and>
     StartTime (sessions d' ! 1) = 400 \<and> EndTime (sessions d' ! 1) = None"
    by metis
  moreover from rows f(6,8,12) have "LastSeen (sessions d' ! 2) = 900"
    by metis
  ultimately show ?thesis by blast
qed

section \<open>The single-open-session invariant\<close>




section \<open>The boundary of the reaper\<close>

text \<open>
  Claim C4, as amended.  Take a round of the reaper in which neither its query nor the
  update of \<^verbatim>\<open>endUserSession\<close> fails, an open session with \<^verbatim>\<open>last_seen\<close> \<open>t0\<close>, the threshold
  \<open>delta\<close> and \<open>eps > 0\<close>.  If the round reads the time \<open>t0 + delta + eps\<close> for its cutoff,
  the session is closed: its row gets an end time, a later reading of the clock in the
  same round, and is otherwise unchanged.  If the round reads \<open>t0 + delta - eps\<close>, or
  \<open>t0 + delta\<close> itself, the row is left as it is, provided that no open session of the
  same user has a \<^verbatim>\<open>last_seen\<close> strictly before the cutoff.  The round selects the users
  of exactly the open sessions whose \<^verbatim>\<open>last_seen\<close> is strictly before the cutoff, and it
  ends sessions by user: a row is closed if and only if it is open and some open session
  of its user was selected, every other row is left as it is, and no row is added or
  removed.
\<close>

theorem reaper_boundary:
  assumes "SelectStale \<notin> failing d" and "UpdateEndTime \<notin> failing d"
    and "i < length (sessions d)"
    and "EndTime (sessions d ! i) = None" and "LastSeen (sessions d ! i) = t0"
    and "0 < eps"
  shows "(\<forall>clock. clock 0 = t0 + delta + eps \<longrightarrow>
            (\<exists>k\<ge>1. sessions (cleanUpOldSessions_tick d delta clock) ! i =
                      (sessions d ! i)\<lparr>EndTime := Some (clock k)\<rparr>)) \<and>
         (\<forall>clock. (clock 0 = t0 + delta - eps \<or> clock 0 = t0 + delta) \<and>
            (\<forall>s \<in> set (sessions d).
                UserID s = UserID (sessions d ! i) \<and> EndTime s = None \<longrightarrow>
                clock 0 - delta \<le> LastSeen s) \<longrightarrow>
            sessions (cleanUpOldSessions_tick d delta clock) ! i = sessions d ! i) \<and>
         (\<forall>clock. staleUsers d (clock 0 - delta) =
            map UserID (filter (\<lambda>s. EndTime s = None \<and> LastSeen s < clock 0 - delta) (sessions d))) \<and>
         (\<forall>clock j. j < length (sessions d) \<longrightarrow>
            (if EndTime (sessions d ! j) = None \<and>
                (\<exists>s \<in> set (sessions d). UserID s = UserID (sessions d ! j) \<and> EndTime s = None \<and>
                   LastSeen s < clock 0 - delta)
             then \<exists>k\<ge>1. sessions (cleanUpOldSessions_tick d delta clock) ! j =
                    (sessions d ! j)\<lparr>EndTime := Some (clock k)\<rparr>
             else sessions (cleanUpOldSessions_tick d delta clock) ! j = sessions d ! j)) \<and>
         (\<forall>clock. length (sessions (cleanUpOldSessions_tick d delta clock)) =
            length (sessions d))"
proof (intro conjI allI impI)
  fix clock :: "nat \<Rightarrow> time"
  assume now: "clock 0 = t0 + delta + eps"
  have "sessions d ! i \<in> set (sessions d)"
    using assms(3) by simp
  moreover have "LastSeen (sessions d ! i) < clock 0 - delta"
    using now assms(5,6) by simp
  ultimately have "\<exists>s \<in> set (sessions d). UserID s = UserID (sessions d ! i) \<and> EndTime s = None \<and>
      LastSeen s < clock 0 - delta"
    using assms(4) by blast
  with tick_row [OF assms(1,2,3), of clock delta] assms(4)
  show "\<exists>k\<ge>1. sessions (cleanUpOldSessions_tick d delta clock) ! i =
      (sessions d ! i)\<lparr>EndTime := Some (clock k)\<rparr>"
    by simp
next
  fix clock :: "nat \<Rightarrow> time"
  assume h: "(clock 0 = t0 + delta - eps \<or> clock 0 = t0 + delta) \<and>
      (\<forall>s \<in> set (sessions d).
          UserID s = UserID (sessions d ! i) \<and> EndTime s = None \<longrightarrow>
          clock 0 - delta \<le> LastSeen s)"
  then have "\<not> (\<exists>s \<in> set (sessions d). UserID s = UserID (sessions d ! i) \<and> EndTime s = None \<and>
      LastSeen s < clock 0 - delta)"
    by fastforce
  with tick_row [OF assms(1,2,3), of clock delta]
  show "sessions (cleanUpOldSessions_tick d delta clock) ! i = sessions d ! i"
    by simp
next
  fix clock :: "nat \<Rightarrow> time"
  show "staleUsers d (clock 0 - delta) =
      map UserID (filter (\<lambda>s. EndTime s = None \<and> LastSeen s < clock 0 - delta) (sessions d))"
    by (simp add: staleUsers_def)
next
  fix clock :: "nat \<Rightarrow> time" and j
  assume "j < length (sessions d)"
  with assms(1,2) show "if EndTime (sessions d ! j) = None \<and>
      (\<exists>s \<in> set (sessions d). UserID s = UserID (sessions d ! j) \<and> EndTime s = None \<and>
         LastSeen s < clock 0 - delta)
    then \<exists>k\<ge>1. sessions (cleanUpOldSessions_tick d delta clock) ! j =
           (sessions d ! j)\<lparr>EndTime := Some (clock k)\<rparr>
    else sessions (cleanUpOldSessions_tick d delta clock) ! j = sessions d ! j"
    by (rule tick_row)
next
  fix clock :: "nat \<Rightarrow> time"
  show "length (sessions (cleanUpOldSessions_tick d delta clock)) = length (sessions d)"
    by (simp add: cleanUpOldSessions_tick_def Let_def endStale_length)
qed

theorem reaper_boundary_witness:
  "(\<exists>k\<ge>1. sessions (cleanUpOldSessions_tick exampleOpenDb 1260 (\<lambda>k. 1661 + int k)) ! 1 =
       (sessions exampleOpenDb ! 1)\<lparr>EndTime := Some (1661 + int k)\<rparr>) \<and>
   sessions (cleanUpOldSessions_tick exampleOpenDb 1260 (\<lambda>k. 1659 + int k)) ! 1 =
     sessions exampleOpenDb ! 1 \<and>
   EndTime (sessions exampleOpenDb ! 1) = None \<and> LastSeen (sessions exampleOpenDb ! 1) = 400"
proof -
  have f: "SelectStale \<notin> failing exampleOpenDb" "UpdateEndTime \<notin> failing exampleOpenDb"
    "1 < length (sessions exampleOpenDb)"
    "EndTime (sessions exampleOpenDb ! 1) = None" "LastSeen (sessions exampleOpenDb ! 1) = 400"
    "(0::int) < 1"
    by (simp_all add: exampleOpenDb_def exampleDb_def)
  have fresh: "\<forall>s \<in> set (sessions exampleOpenDb).
      UserID s = UserID (sessions exampleOpenDb ! 1) \<and> EndTime s = None \<longrightarrow> 1659 - 1260 \<le> LastSeen s"
    by (simp add: exampleOpenDb_def exampleDb_def)
  note inst = reaper_boundary [OF f, of 1260]
  note closes = inst [THEN conjunct1, rule_format, of "\<lambda>k. 1661 + int k"]
  note keeps = inst [THEN conjunct2, THEN conjunct1, rule_format, of "\<lambda>k. 1659 + int k"]
  from closes
  have "\<exists>k\<ge>1. sessions (cleanUpOldSessions_tick exampleOpenDb 1260 (\<lambda>k. 1661 + int k)) ! 1 =
       (sessions exampleOpenDb ! 1)\<lparr>EndTime := Some (1661 + int k)\<rparr>"
    by simp
  moreover from keeps fresh
  have "sessions (cleanUpOldSessions_tick exampleOpenDb 1260 (\<lambda>k. 1659 + int k)) ! 1 =
     sessions exampleOpenDb ! 1"
    by simp
  ultimately show ?thesis using f(4,5) by simp
qed

text \<open>
  The claim as it was stated, for every open session, fails for a user with two open
  sessions: the session of user 42 with \<^verbatim>\<open>last_seen\<close> 990 is closed by a round at time
  1661, which is 589 before 990 + 1260, because the other open session of the user was
  last seen at 100.
\<close>

theorem reaper_boundary_counterexample:
  "failing exampleDoubleOpenDb = {} \<and>
   EndTime (sessions exampleDoubleOpenDb ! 1) = None \<and>
   LastSeen (sessions exampleDoubleOpenDb ! 1) = 990 \<and>
   exampleClock 0 = 990 + 1260 - 589 \<and>
   EndTime (sessions (cleanUpOldSessions_tick exampleDoubleOpenDb 1260 exampleClock) ! 1) = Some 1662"
  by (simp add: exampleDoubleOpenDb_def exampleDb_def exampleClock_def cleanUpOldSessions_tick_def
      staleUsers_def endUserSession_def Let_def)

section \<open>The resolver\<close>

text \<open>
  Claim C3, as amended.  When the two index queries do not fail and no row of the two
  index tables has room 0, \<^verbatim>\<open>determineRoomID\<close> is the resolver of the specification: no
  observation at all gives \<open>ErrNoSignalData\<close> (and nothing else does); otherwise the
  first BLE observation whose identifier the index holds, compared without regard to
  case, gives the room, before any WiFi observation; otherwise the first such WiFi
  observation; otherwise the result is \<open>ErrNoMatch\<close>.
\<close>

theorem determineRoomID_contract:
  assumes "SelectBeacon \<notin> failing d" and "SelectWifi \<notin> failing d"
    and "0 \<notin> snd ` set (beacons d)" and "0 \<notin> snd ` set (wifi_access_points d)"
  shows "determineRoomID d (Inr ble) (Inr wifi) =
           Resolve (indexLookup (beacons d)) (indexLookup (wifi_access_points d))
             (map UUID ble) (map BSSID wifi) \<and>
         (determineRoomID d (Inr ble) (Inr wifi) = Inl ErrNoSignalData \<longleftrightarrow>
            ble = [] \<and> wifi = [])"
proof -
  have b: "firstResolved (indexLookup (beacons d)) (map UUID ble) = Some room \<Longrightarrow> room \<noteq> 0"
    for room using assms(3) by (rule firstResolved_nonzero)
  have w: "firstResolved (indexLookup (wifi_access_points d)) (map BSSID wifi) = Some room
      \<Longrightarrow> room \<noteq> 0"
    for room using assms(4) by (rule firstResolved_nonzero)
  have eq: "determineRoomID d (Inr ble) (Inr wifi) =
      Resolve (indexLookup (beacons d)) (indexLookup (wifi_access_points d))
        (map UUID ble) (map BSSID wifi)"
    using assms(1,2) b w
    by (auto simp: determineRoomID_def Resolve_def scanBeacons_firstResolved
        scanWifi_firstResolved Let_def split: option.splits)
  have "(determineRoomID d (Inr ble) (Inr wifi) = Inl ErrNoSignalData) = (ble = [] \<and> wifi = [])"
    by (auto simp: determineRoomID_def Let_def)
  with eq show ?thesis by simp
qed

theorem determineRoomID_contract_witness:
  "determineRoomID exampleIndexDb (Inr [beaconA, beaconB]) (Inr [wifiX]) =
     Resolve (indexLookup (beacons exampleIndexDb)) (indexLookup (wifi_access_points exampleIndexDb))
       (map UUID [beaconA, beaconB]) (map BSSID [wifiX]) \<and>
   determineRoomID exampleIndexDb (Inr [beaconA, beaconB]) (Inr [wifiX]) = Inr 7"
proof -
  have f: "SelectBeacon \<notin> failing exampleIndexDb" "SelectWifi \<notin> failing exampleIndexDb"
    "0 \<notin> snd ` set (beacons exampleIndexDb)" "0 \<notin> snd ` set (wifi_access_points exampleIndexDb)"
    by (simp_all add: exampleIndexDb_def exampleDb_def)
  have "determineRoomID exampleIndexDb (Inr [beaconA, beaconB]) (Inr [wifiX]) = Inr 7"
    by (simp add: determineRoomID_def example_index_lookups)
  with determineRoomID_contract [OF f, of "[beaconA, beaconB]" "[wifiX]"]
  show ?thesis by simp
qed

text \<open>
  The claim as it was stated, for every index, fails where the index has a row with
  room 0: the beacon of the upload is in the index, and the room of the access point is
  returned.
\<close>

theorem determineRoomID_precedence_counterexample:
  "indexLookup (beacons exampleDb) (UUID beaconZero) = Some 0 \<and>
   determineRoomID exampleDb (Inr [beaconZero]) (Inr [wifiX]) = Inr 3 \<and>
   determineRoomID exampleDb (Inr [beaconZero]) (Inr [wifiX]) \<noteq>
     Resolve (indexLookup (beacons exampleDb)) (indexLookup (wifi_access_points exampleDb))
       (map UUID [beaconZero]) (map BSSID [wifiX])"
proof -
  have ok: "SelectBeacon \<notin> failing exampleDb" by (simp add: exampleDb_def)
  have look: "indexLookup (beacons exampleDb) (UUID beaconZero) = Some 0"
    using example_lookups(3) getRoomIDByBeacon_lookup [OF ok, of beaconZero]
    by (simp split: option.splits)
  have code: "determineRoomID exampleDb (Inr [beaconZero]) (Inr [wifiX]) = Inr 3"
    by (simp add: determineRoomID_def example_lookups)
  have spec: "Resolve (indexLookup (beacons exampleDb)) (indexLookup (wifi_access_points exampleDb))
       (map UUID [beaconZero]) (map BSSID [wifiX]) = Inr 0"
    by (simp add: Resolve_def look)
  from look code spec show ?thesis by simp
qed

text \<open>
  Claim C9, as amended.  \<^verbatim>\<open>determineRoomID\<close> never returns room 0, and an upload with an
  observation whose lookups all give room 0 or nothing fails with \<open>ErrNoMatch\<close>.  A
  lookup that gives room 0 is not skipped like a lookup without a match: it ends the
  scan of its list, so that the observations after it are not looked up and the list
  gives no room.
\<close>

theorem determineRoomID_never_zero:
  "(\<forall>room. determineRoomID d bleRead wifiRead = Inr room \<longrightarrow> room \<noteq> 0) \<and>
   (\<forall>ble wifi.
      (ble \<noteq> [] \<or> wifi \<noteq> []) \<and>
      (\<forall>b \<in> set ble. \<forall>r. getRoomIDByBeacon d b = Inr r \<longrightarrow> r = 0) \<and>
      (\<forall>w \<in> set wifi. \<forall>r. getRoomIDByWifi d w = Inr r \<longrightarrow> r = 0) \<longrightarrow>
      determineRoomID d (Inr ble) (Inr wifi) = Inl ErrNoMatch) \<and>
   (\<forall>pre b post wifi.
      (\<forall>x \<in> set pre. \<forall>r. getRoomIDByBeacon d x \<noteq> Inr r) \<and> getRoomIDByBeacon d b = Inr 0 \<longrightarrow>
      determineRoomID d (Inr (pre @ b # post)) (Inr wifi) =
        determineRoomID d (Inr [b]) (Inr wifi)) \<and>
   (\<forall>ble pre w post.
      (\<forall>x \<in> set pre. \<forall>r. getRoomIDByWifi d x \<noteq> Inr r) \<and> getRoomIDByWifi d w = Inr 0 \<longrightarrow>
      determineRoomID d (Inr ble) (Inr (pre @ w # post)) =
        determineRoomID d (Inr ble) (Inr [w]))"
proof (intro conjI allI impI)
  fix room
  assume "determineRoomID d bleRead wifiRead = Inr room"
  then show "room \<noteq> 0"
    by (auto simp: determineRoomID_def Let_def split: sum.splits if_splits)
next
  fix ble wifi
  assume h: "(ble \<noteq> [] \<or> wifi \<noteq> []) \<and>
      (\<forall>b \<in> set ble. \<forall>r. getRoomIDByBeacon d b = Inr r \<longrightarrow> r = 0) \<and>
      (\<forall>w \<in> set wifi. \<forall>r. getRoomIDByWifi d w = Inr r \<longrightarrow> r = 0)"
  then have "scanBeacons d ble = 0" and "scanWifi d wifi = 0"
    by (simp_all add: scanBeacons_all_zero scanWifi_all_zero)
  with h show "determineRoomID d (Inr ble) (Inr wifi) = Inl ErrNoMatch"
    by (auto simp: determineRoomID_def)
next
  fix pre b post wifi
  assume h: "(\<forall>x \<in> set pre. \<forall>r. getRoomIDByBeacon d x \<noteq> Inr r) \<and> getRoomIDByBeacon d b = Inr 0"
  then have "scanBeacons d (pre @ b # post) = scanBeacons d (b # post)"
    by (simp add: scanBeacons_skip)
  with h have "scanBeacons d (pre @ b # post) = 0" and "scanBeacons d [b] = 0"
    by simp_all
  then show "determineRoomID d (Inr (pre @ b # post)) (Inr wifi) =
      determineRoomID d (Inr [b]) (Inr wifi)"
    by (simp add: determineRoomID_def)
next
  fix ble pre w post
  assume h: "(\<forall>x \<in> set pre. \<forall>r. getRoomIDByWifi d x \<noteq> Inr r) \<and> getRoomIDByWifi d w = Inr 0"
  then have "scanWifi d (pre @ w # post) = scanWifi d (w # post)"
    by (simp add: scanWifi_skip)
  with h have "scanWifi d (pre @ w # post) = 0" and "scanWifi d [w] = 0"
    by simp_all
  then show "determineRoomID d (Inr ble) (Inr (pre @ w # post)) =
      determineRoomID d (Inr ble) (Inr [w])"
    by (simp add: determineRoomID_def)
qed

theorem determineRoomID_never_zero_witness:
  "getRoomIDByBeacon exampleDb beaconA \<noteq> Inr 0 \<and>
   getRoomIDByBeacon exampleDb beaconZero = Inr 0 \<and>
   determineRoomID exampleDb (Inr ([beaconA] @ beaconZero # [beaconB])) (Inr [wifiX]) =
     determineRoomID exampleDb (Inr [beaconZero]) (Inr [wifiX]) \<and>
   determineRoomID exampleDb (Inr [beaconA, beaconZero]) (Inr []) = Inl ErrNoMatch"
proof -
  note inst = determineRoomID_never_zero [of exampleDb]
  have a: "\<forall>x \<in> set [beaconA]. \<forall>r. getRoomIDByBeacon exampleDb x \<noteq> Inr r"
    by (simp add: example_lookups)
  have z: "getRoomIDByBeacon exampleDb beaconZero = Inr 0"
    by (simp add: example_lookups)
  have allz: "\<forall>b \<in> set [beaconA, beaconZero]. \<forall>r. getRoomIDByBeacon exampleDb b = Inr r \<longrightarrow> r = 0"
    by (simp add: example_lookups)
  from inst a z
  have "determineRoomID exampleDb (Inr ([beaconA] @ beaconZero # [beaconB])) (Inr [wifiX]) =
     determineRoomID exampleDb (Inr [beaconZero]) (Inr [wifiX])"
    by blast
  moreover from inst allz
  have "determineRoomID exampleDb (Inr [beaconA, beaconZero]) (Inr []) = Inl ErrNoMatch"
    by simp
  ultimately show ?thesis using z by (simp add: example_lookups)
qed

text \<open>
  The claim as it was stated treats a row with room 0 as no match.  The code does not:
  with the row the upload fails, without the row (or without the observation) the next
  beacon gives room 7.
\<close>

theorem determineRoomID_zero_match_counterexample:
  "getRoomIDByBeacon exampleDb beaconZero = Inr 0 \<and>
   determineRoomID exampleDb (Inr [beaconZero, beaconB]) (Inr []) = Inl ErrNoMatch \<and>
   determineRoomID exampleDb (Inr [beaconB]) (Inr []) = Inr 7 \<and>
   determineRoomID exampleIndexDb (Inr [beaconZero, beaconB]) (Inr []) = Inr 7"
proof -
  have "getRoomIDByBeacon exampleIndexDb beaconZero = Inl ErrNoRows"
    by (simp add: getRoomIDByBeacon_def exampleDb_def exampleIndexDb_def beaconZero_def
        UPPER_def upper_char_def)
  then show ?thesis
    by (simp add: determineRoomID_def example_lookups example_index_lookups)
qed

end
